theory Spec2Isabelle
  imports Main "HOL-Library.Sublist"
begin

section \<open>The payment-instruction parser of services/payment-processor/parse-instruction.js\<close>

text \<open>
  The module turns a free-text payment instruction and an array of accounts into a
  transaction response. Every function of the module is embedded below under its own
  name. Exceptions are values of a sum type (\<open>Inl\<close> the error), JavaScript
  \<open>undefined\<close>/\<open>null\<close>/\<open>NaN\<close> are \<open>None\<close>, objects and arrays that the
  code allocates live in an explicit store, and the clock and the time zone of the process
  are parameters.
\<close>

subsection \<open>Strings\<close>

text \<open>
  A JavaScript string is modelled as a \<open>string\<close>. Case conversion is the ASCII one
  (letters \<open>A\<close> to \<open>Z\<close>); every other character is left as it is. White space is the
  ASCII part of what \<open>trim\<close> and \<open>parseInt\<close> strip.
\<close>

definition toLowerCase_char :: "char \<Rightarrow> char" where
  "toLowerCase_char c =
     (case map_of (zip ''ABCDEFGHIJKLMNOPQRSTUVWXYZ'' ''abcdefghijklmnopqrstuvwxyz'') c of
        Some d \<Rightarrow> d | None \<Rightarrow> c)"

definition toUpperCase_char :: "char \<Rightarrow> char" where
  "toUpperCase_char c =
     (case map_of (zip ''abcdefghijklmnopqrstuvwxyz'' ''ABCDEFGHIJKLMNOPQRSTUVWXYZ'') c of
        Some d \<Rightarrow> d | None \<Rightarrow> c)"

definition toLowerCase :: "string \<Rightarrow> string" where
  "toLowerCase s = map toLowerCase_char s"

definition toUpperCase :: "string \<Rightarrow> string" where
  "toUpperCase s = map toUpperCase_char s"

definition isWhiteSpace :: "char \<Rightarrow> bool" where
  "isWhiteSpace c \<longleftrightarrow> c \<in> set [CHR '' '', CHR 0x09, CHR 0x0A, CHR 0x0B, CHR 0x0C, CHR 0x0D]"

definition trim :: "string \<Rightarrow> string" where
  "trim s = rev (dropWhile isWhiteSpace (rev (dropWhile isWhiteSpace s)))"

text \<open>\<open>s.includes(t)\<close>: \<open>t\<close> occurs in \<open>s\<close> as a contiguous substring.\<close>

fun includes_str :: "string \<Rightarrow> string \<Rightarrow> bool" where
  "includes_str [] t = (t = [])"
| "includes_str (c # cs) t = (prefix t (c # cs) \<or> includes_str cs t)"

text \<open>\<open>s.split(' ')\<close>: the pieces between single spaces, empty pieces included.\<close>

fun split_space :: "string \<Rightarrow> string list" where
  "split_space [] = [[]]"
| "split_space (c # cs) =
     (if c = CHR '' '' then [] # split_space cs
      else (case split_space cs of [] \<Rightarrow> [[c]] | w # ws \<Rightarrow> (c # w) # ws))"

text \<open>
  \<open>words[i]\<close> for a computed index: \<open>undefined\<close> outside the array.
\<close>

definition word_at :: "string list \<Rightarrow> int \<Rightarrow> string option" where
  "word_at words i = (if 0 \<le> i \<and> i < int (length words) then Some (words ! nat i) else None)"

text \<open>A string value is truthy when it is neither \<open>undefined\<close>/\<open>null\<close> nor empty.\<close>

definition truthy :: "string option \<Rightarrow> bool" where
  "truthy v = (case v of None \<Rightarrow> False | Some s \<Rightarrow> s \<noteq> [])"

subsection \<open>\<open>parseInt(str, 10)\<close>\<close>

text \<open>
  \<open>parseInt\<close> skips leading white space, reads an optional sign and then the longest run
  of decimal digits; what follows the digits is ignored, and no digit at all gives
  \<open>NaN\<close> (\<open>None\<close>). The argument \<open>undefined\<close> is converted to the string
  \<open>"undefined"\<close>, which has no digit. The value is the exact integer.
\<close>

definition digitValue :: "char \<Rightarrow> int option" where
  "digitValue c = map_of (zip ''0123456789'' [0, 1, 2, 3, 4, 5, 6, 7, 8, 9]) c"

definition isDigit :: "char \<Rightarrow> bool" where
  "isDigit c = (digitValue c \<noteq> None)"

definition digitsValue :: "string \<Rightarrow> int" where
  "digitsValue ds = foldl (\<lambda>a c. 10 * a + (case digitValue c of Some d \<Rightarrow> d | None \<Rightarrow> 0)) 0 ds"

definition parseInt :: "string option \<Rightarrow> int option" where
  "parseInt str =
     (case str of
        None \<Rightarrow> None
      | Some s \<Rightarrow>
          (let s1 = dropWhile isWhiteSpace s;
               sign = (case s1 of [] \<Rightarrow> 1 | c # _ \<Rightarrow> if c = CHR ''-'' then - 1 else 1);
               s2 = (case s1 of [] \<Rightarrow> [] | c # r \<Rightarrow> if c = CHR ''-'' \<or> c = CHR ''+'' then r else s1);
               ds = takeWhile isDigit s2
           in if ds = [] then None else Some (sign * digitsValue ds)))"

subsection \<open>Errors\<close>

text \<open>
  \<open>throwAppError(message, code)\<close> raises an application error that carries an entry of
  the \<open>PaymentMessages\<close> registry and an error code. \<open>TypeError\<close> is the error the
  JavaScript engine itself raises when a property of \<open>undefined\<close> is read.
\<close>

datatype payment_message =
    MALFORMED_INSTRUCTION | INVALID_KEYWORD_ORDER | INVALID_AMOUNT | UNSUPPORTED_CURRENCY
  | MISSING_KEYWORD | INVALID_ACCOUNT_ID | SAME_ACCOUNT_ERROR | ACCOUNT_NOT_FOUND
  | CURRENCY_MISMATCH | INSUFFICIENT_FUNDS | INVALID_DATE_FORMAT
  | TRANSACTION_SUCCESSFUL | TRANSACTION_PENDING

datatype error_code = INVLDDATA

datatype error = AppError payment_message error_code | TypeError

definition throwAppError :: "payment_message \<Rightarrow> error_code \<Rightarrow> error + 'a" where
  "throwAppError message code = Inl (AppError message code)"

subsection \<open>Data\<close>

text \<open>
  An account of the request, \<open>{ id, balance, currency }\<close>, and an entry of the response,
  which has \<open>balance_before\<close> as well. Balances and amounts are exact integers.
\<close>

record account =
  id_of :: string
  balance :: int
  currency :: string

record projected_account = account +
  balance_before :: int

datatype instruction_type = DEBIT | CREDIT

text \<open>
  The record a structured parser returns. The account fields are \<open>words[...]\<close> reads and
  may be \<open>undefined\<close>; \<open>execute_by\<close> is \<open>null\<close> or a token.
\<close>

record instruction =
  type :: instruction_type
  amount :: int
  currency :: string
  debit_account :: "string option"
  credit_account :: "string option"
  execute_by :: "string option"

definition SUPPORTED_CURRENCIES :: "string list" where
  "SUPPORTED_CURRENCIES = [''NGN'', ''USD'', ''GBP'', ''GHS'']"

definition VALID_ACCOUNT_CHARS :: string where
  "VALID_ACCOUNT_CHARS = ''abcdefghijklmnopqrstuvwxyzABCDEFGHIJKLMNOPQRSTUVWXYZ0123456789-_.@''"

subsection \<open>findKeywordIndex\<close>

text \<open>
  The \<open>for\<close> loop from \<open>startIndex\<close>; every call of the module passes a start index that
  is not negative.
\<close>

function findKeywordIndex :: "string list \<Rightarrow> string \<Rightarrow> nat \<Rightarrow> int" where
  "findKeywordIndex words keyword i =
     (if i < length words
      then (if toLowerCase (words ! i) = toLowerCase keyword then int i
            else findKeywordIndex words keyword (i + 1))
      else - 1)"
  by pat_completeness auto
termination
  by (relation "measure (\<lambda>(words, keyword, i). length words - i)") auto

declare findKeywordIndex.simps [simp del]

subsection \<open>The structured parsers\<close>

definition parseDebitFormat :: "string list \<Rightarrow> error + instruction" where
  "parseDebitFormat words =
     (let debitIndex = findKeywordIndex words ''debit'' 0;
          fromIndex = findKeywordIndex words ''from'' 0;
          accountIndexAfterFrom = fromIndex + 1;
          forIndex = findKeywordIndex words ''for'' 0;
          creditIndex = forIndex + 1;
          toIndex = findKeywordIndex words ''to'' (nat creditIndex);
          accountIndexAfterTo = toIndex + 1
      in if debitIndex = - 1 \<or> fromIndex = - 1 \<or> forIndex = - 1 \<or> creditIndex = - 1
            \<or> toIndex = - 1
         then throwAppError INVALID_KEYWORD_ORDER INVLDDATA
         else
           let amountStr = word_at words (debitIndex + 1);
               amountNum = parseInt amountStr
           in case amountNum of
                None \<Rightarrow> throwAppError INVALID_AMOUNT INVLDDATA
              | Some amountInt \<Rightarrow>
                  if amountInt \<le> 0 then throwAppError INVALID_AMOUNT INVLDDATA
                  else
                    let currencyStr = map_option toUpperCase (word_at words (debitIndex + 2))
                    in if \<not> truthy currencyStr \<or> the currencyStr \<notin> set SUPPORTED_CURRENCIES
                       then throwAppError UNSUPPORTED_CURRENCY INVLDDATA
                       else if map_option toLowerCase (word_at words accountIndexAfterFrom)
                               \<noteq> Some ''account''
                       then throwAppError MISSING_KEYWORD INVLDDATA
                       else
                         let debitAccount = word_at words (accountIndexAfterFrom + 1)
                         in if map_option toLowerCase (word_at words accountIndexAfterTo)
                                 \<noteq> Some ''account''
                            then throwAppError MISSING_KEYWORD INVLDDATA
                            else
                              let creditAccount = word_at words (accountIndexAfterTo + 1);
                                  onIndex = findKeywordIndex words ''on'' 0;
                                  executeBy =
                                    (if onIndex \<noteq> - 1 \<and> truthy (word_at words (onIndex + 1))
                                     then word_at words (onIndex + 1) else None)
                              in Inr \<lparr>type = DEBIT, amount = amountInt, currency = the currencyStr,
                                      debit_account = debitAccount,
                                      credit_account = creditAccount,
                                      execute_by = executeBy\<rparr>)"

definition parseCreditFormat :: "string list \<Rightarrow> error + instruction" where
  "parseCreditFormat words =
     (let creditIndex = findKeywordIndex words ''credit'' 0;
          toIndex = findKeywordIndex words ''to'' 0;
          accountIndexAfterTo = toIndex + 1;
          forIndex = findKeywordIndex words ''for'' 0;
          debitIndex = forIndex + 1;
          fromIndex = findKeywordIndex words ''from'' (nat debitIndex);
          accountIndexAfterFrom = fromIndex + 1
      in if creditIndex = - 1 \<or> toIndex = - 1 \<or> forIndex = - 1 \<or> debitIndex = - 1
            \<or> fromIndex = - 1
         then throwAppError INVALID_KEYWORD_ORDER INVLDDATA
         else
           let amountStr = word_at words (creditIndex + 1);
               amountNum = parseInt amountStr
           in case amountNum of
                None \<Rightarrow> throwAppError INVALID_AMOUNT INVLDDATA
              | Some amountInt \<Rightarrow>
                  if amountInt \<le> 0 then throwAppError INVALID_AMOUNT INVLDDATA
                  else
                    let currencyStr = map_option toUpperCase (word_at words (creditIndex + 2))
                    in if \<not> truthy currencyStr \<or> the currencyStr \<notin> set SUPPORTED_CURRENCIES
                       then throwAppError UNSUPPORTED_CURRENCY INVLDDATA
                       else if map_option toLowerCase (word_at words accountIndexAfterTo)
                               \<noteq> Some ''account''
                       then throwAppError MISSING_KEYWORD INVLDDATA
                       else
                         let creditAccount = word_at words (accountIndexAfterTo + 1)
                         in if map_option toLowerCase (word_at words accountIndexAfterFrom)
                                 \<noteq> Some ''account''
                            then throwAppError MISSING_KEYWORD INVLDDATA
                            else
                              let debitAccount = word_at words (accountIndexAfterFrom + 1);
                                  onIndex = findKeywordIndex words ''on'' 0;
                                  executeBy =
                                    (if onIndex \<noteq> - 1 \<and> truthy (word_at words (onIndex + 1))
                                     then word_at words (onIndex + 1) else None)
                              in Inr \<lparr>type = CREDIT, amount = amountInt, currency = the currencyStr,
                                      debit_account = debitAccount,
                                      credit_account = creditAccount,
                                      execute_by = executeBy\<rparr>)"

subsection \<open>parseInstructionText\<close>

definition tokenize :: "string \<Rightarrow> string list" where
  "tokenize instruction = filter (\<lambda>word. length word > 0) (split_space instruction)"

definition isDebitFormat :: "string \<Rightarrow> bool" where
  "isDebitFormat lowerInstruction \<longleftrightarrow>
     includes_str lowerInstruction ''debit'' \<and> includes_str lowerInstruction ''from account''
     \<and> includes_str lowerInstruction ''for credit to account''"

definition isCreditFormat :: "string \<Rightarrow> bool" where
  "isCreditFormat lowerInstruction \<longleftrightarrow>
     includes_str lowerInstruction ''credit'' \<and> includes_str lowerInstruction ''to account''
     \<and> includes_str lowerInstruction ''for debit from account''"

definition parseInstructionText :: "string \<Rightarrow> error + instruction" where
  "parseInstructionText instruction =
     (let words = tokenize instruction;
          lowerInstruction = toLowerCase instruction
      in if isDebitFormat lowerInstruction then parseDebitFormat words
         else if isCreditFormat lowerInstruction then parseCreditFormat words
         else throwAppError MALFORMED_INSTRUCTION INVLDDATA)"

subsection \<open>Dates\<close>

text \<open>
  A \<open>Date\<close> is its time value: milliseconds since 1970-01-01T00:00Z, or \<open>NaN\<close>
  (\<open>None\<close>) for an invalid date. The functions below are the abstract operations of
  ECMAScript (\<open>Day\<close>, \<open>MakeDay\<close>, \<open>YearFromTime\<close>, \<open>MonthFromTime\<close>,
  \<open>DateFromTime\<close>, \<open>TimeClip\<close>) on the proleptic Gregorian calendar; months count
  from 0.
\<close>

definition msPerDay :: int where
  "msPerDay = 86400000"

definition Day :: "int \<Rightarrow> int" where
  "Day t = t div msPerDay"

definition isLeapYear :: "int \<Rightarrow> bool" where
  "isLeapYear y \<longleftrightarrow> y mod 4 = 0 \<and> (y mod 100 \<noteq> 0 \<or> y mod 400 = 0)"

definition daysInMonth :: "int \<Rightarrow> int \<Rightarrow> int" where
  "daysInMonth y m =
     (if m = 2 then (if isLeapYear y then 29 else 28)
      else if m = 4 \<or> m = 6 \<or> m = 9 \<or> m = 11 then 30 else 31)"

text \<open>The day number of the calendar date \<open>y\<close>-\<open>m\<close>-\<open>d\<close>, with \<open>m\<close> from 1 to 12.\<close>

definition daysFromCivil :: "int \<Rightarrow> int \<Rightarrow> int \<Rightarrow> int" where
  "daysFromCivil y m d =
     (let y1 = (if m \<le> 2 then y - 1 else y);
          era = y1 div 400;
          yoe = y1 - era * 400;
          doy = (153 * (if m > 2 then m - 3 else m + 9) + 2) div 5 + d - 1;
          doe = yoe * 365 + yoe div 4 - yoe div 100 + doy
      in era * 146097 + doe - 719468)"

text \<open>The calendar date (year, month from 1 to 12, day of the month) of a day number.\<close>

definition civilFromDays :: "int \<Rightarrow> int \<times> int \<times> int" where
  "civilFromDays z =
     (let z1 = z + 719468;
          era = z1 div 146097;
          doe = z1 - era * 146097;
          yoe = (doe - doe div 1460 + doe div 36524 - doe div 146096) div 365;
          doy = doe - (365 * yoe + yoe div 4 - yoe div 100);
          mp = (5 * doy + 2) div 153;
          d = doy - (153 * mp + 2) div 5 + 1;
          m = (if mp < 10 then mp + 3 else mp - 9);
          y = yoe + era * 400
      in (if m \<le> 2 then y + 1 else y, m, d))"

definition MakeDay :: "int \<Rightarrow> int \<Rightarrow> int \<Rightarrow> int" where
  "MakeDay year month date =
     daysFromCivil (year + month div 12) (month mod 12 + 1) 1 + date - 1"

definition YearFromTime :: "int \<Rightarrow> int" where
  "YearFromTime t = fst (civilFromDays (Day t))"

definition MonthFromTime :: "int \<Rightarrow> int" where
  "MonthFromTime t = fst (snd (civilFromDays (Day t))) - 1"

definition DateFromTime :: "int \<Rightarrow> int" where
  "DateFromTime t = snd (snd (civilFromDays (Day t)))"

definition TimeClip :: "int \<Rightarrow> int option" where
  "TimeClip t = (if \<bar>t\<bar> > 8640000000000000 then None else Some t)"

text \<open>
  What the module takes from its environment: the time value \<open>new Date()\<close> gives, the
  offset of local time from UTC in milliseconds (taken as constant), and the result of
  \<open>new Date(s)\<close> on the strings for which the language leaves it to the engine.
\<close>

record env =
  now :: int
  LocalTZA :: int
  engineDateParse :: "string \<Rightarrow> int option"

definition LocalTime :: "env \<Rightarrow> int \<Rightarrow> int" where
  "LocalTime env t = t + LocalTZA env"

definition UTC :: "env \<Rightarrow> int \<Rightarrow> int" where
  "UTC env t = t - LocalTZA env"

text \<open>The regular expression \<open>/^\d{4}-\d{2}-\d{2}$/\<close>.\<close>

definition dateRegex_test :: "string \<Rightarrow> bool" where
  "dateRegex_test s =
     (case s of
        [y1, y2, y3, y4, h1, m1, m2, h2, d1, d2] \<Rightarrow>
          isDigit y1 \<and> isDigit y2 \<and> isDigit y3 \<and> isDigit y4 \<and> h1 = CHR ''-''
          \<and> isDigit m1 \<and> isDigit m2 \<and> h2 = CHR ''-'' \<and> isDigit d1 \<and> isDigit d2
      | _ \<Rightarrow> False)"

text \<open>
  \<open>new Date(s)\<close> for a string. A string of the date-only form \<open>YYYY-MM-DD\<close> that names
  a day of the calendar is midnight UTC of that day. For every other string the result is
  the engine's.
\<close>

definition Date_parse :: "env \<Rightarrow> string \<Rightarrow> int option" where
  "Date_parse env s =
     (if dateRegex_test s then
        (let y = digitsValue (take 4 s);
             m = digitsValue (take 2 (drop 5 s));
             d = digitsValue (drop 8 s)
         in if 1 \<le> m \<and> m \<le> 12 \<and> 1 \<le> d \<and> d \<le> daysInMonth y m
            then TimeClip (MakeDay y (m - 1) d * msPerDay)
            else engineDateParse env s)
      else engineDateParse env s)"

text \<open>
  \<open>new Date(year, month, date)\<close>: local midnight of that day; a year from 0 to 99 means
  1900 to 1999; a \<open>NaN\<close> argument gives an invalid date.
\<close>

definition Date_ymd :: "env \<Rightarrow> int option \<Rightarrow> int option \<Rightarrow> int option \<Rightarrow> int option" where
  "Date_ymd env year month date =
     (case (year, month, date) of
        (Some y, Some m, Some d) \<Rightarrow>
          (let yr = (if 0 \<le> y \<and> y \<le> 99 then 1900 + y else y)
           in TimeClip (UTC env (MakeDay yr m d * msPerDay)))
      | _ \<Rightarrow> None)"

definition getFullYear :: "env \<Rightarrow> int option \<Rightarrow> int option" where
  "getFullYear env t = map_option (\<lambda>t. YearFromTime (LocalTime env t)) t"

definition getMonth :: "env \<Rightarrow> int option \<Rightarrow> int option" where
  "getMonth env t = map_option (\<lambda>t. MonthFromTime (LocalTime env t)) t"

definition getDate :: "env \<Rightarrow> int option \<Rightarrow> int option" where
  "getDate env t = map_option (\<lambda>t. DateFromTime (LocalTime env t)) t"

text \<open>\<open>a <= b\<close> on dates compares the time values and is false when one is \<open>NaN\<close>.\<close>

definition date_le :: "int option \<Rightarrow> int option \<Rightarrow> bool" where
  "date_le a b = (case (a, b) of (Some x, Some y) \<Rightarrow> x \<le> y | _ \<Rightarrow> False)"

subsection \<open>shouldExecuteNow\<close>

definition shouldExecuteNow :: "env \<Rightarrow> string option \<Rightarrow> bool" where
  "shouldExecuteNow env executeBy =
     (if \<not> truthy executeBy then True
      else
        let transactionDate = Date_parse env (the executeBy);
            today = Some (now env);
            transactionDateOnly =
              Date_ymd env (getFullYear env transactionDate) (getMonth env transactionDate)
                (getDate env transactionDate);
            todayOnly = Date_ymd env (getFullYear env today) (getMonth env today)
                (getDate env today)
        in date_le transactionDateOnly todayOnly)"

subsection \<open>The store\<close>

text \<open>
  Objects and arrays are cells of a store and are passed by address. A cell is an account
  object, an object of the response's account list, or an array of addresses. Allocation
  takes the next address; \<open>push\<close> replaces the array cell.
\<close>

datatype cell = Account account | Projected projected_account | Array "nat list"

type_synonym store = "cell list"

definition lookup :: "store \<Rightarrow> nat \<Rightarrow> cell option" where
  "lookup h a = (if a < length h then Some (h ! a) else None)"

definition alloc :: "store \<Rightarrow> cell \<Rightarrow> store \<times> nat" where
  "alloc h c = (h @ [c], length h)"

definition push :: "store \<Rightarrow> nat \<Rightarrow> nat \<Rightarrow> store" where
  "push h arr x =
     (case lookup h arr of Some (Array xs) \<Rightarrow> h[arr := Array (xs @ [x])] | _ \<Rightarrow> h)"

definition array_elems :: "store \<Rightarrow> nat \<Rightarrow> nat list" where
  "array_elems h arr = (case lookup h arr of Some (Array xs) \<Rightarrow> xs | _ \<Rightarrow> [])"

definition account_at :: "store \<Rightarrow> nat \<Rightarrow> account option" where
  "account_at h a = (case lookup h a of Some (Account acc) \<Rightarrow> Some acc | _ \<Rightarrow> None)"

definition projected_at :: "store \<Rightarrow> nat \<Rightarrow> projected_account option" where
  "projected_at h a = (case lookup h a of Some (Projected acc) \<Rightarrow> Some acc | _ \<Rightarrow> None)"

text \<open>
  The account objects of an array of accounts, in order; \<open>None\<close> when the address is not
  that of an array of account objects (the request schema).
\<close>

definition readAccounts :: "store \<Rightarrow> nat \<Rightarrow> account list option" where
  "readAccounts h arr =
     (case lookup h arr of
        Some (Array xs) \<Rightarrow>
          if list_all (\<lambda>a. account_at h a \<noteq> None) xs
          then Some (map (\<lambda>a. the (account_at h a)) xs) else None
      | _ \<Rightarrow> None)"

definition readProjected :: "store \<Rightarrow> nat \<Rightarrow> projected_account list option" where
  "readProjected h arr =
     (case lookup h arr of
        Some (Array xs) \<Rightarrow>
          if list_all (\<lambda>a. projected_at h a \<noteq> None) xs
          then Some (map (\<lambda>a. the (projected_at h a)) xs) else None
      | _ \<Rightarrow> None)"

subsection \<open>isValidAccountId\<close>

fun isValidAccountId_loop :: "string \<Rightarrow> bool" where
  "isValidAccountId_loop [] = True"
| "isValidAccountId_loop (char # rest) =
     (if char \<notin> set VALID_ACCOUNT_CHARS then False else isValidAccountId_loop rest)"

text \<open>Reading \<open>accountId.length\<close> of \<open>undefined\<close> raises a \<open>TypeError\<close>.\<close>

definition isValidAccountId :: "string option \<Rightarrow> error + bool" where
  "isValidAccountId accountId =
     (case accountId of
        None \<Rightarrow> Inl TypeError
      | Some s \<Rightarrow> Inr (if isValidAccountId_loop s then length s > 0 else False))"

subsection \<open>validateParsedData\<close>

definition validateParsedData :: "env \<Rightarrow> instruction \<Rightarrow> account list \<Rightarrow> error + unit" where
  "validateParsedData env parsed accountObjs =
     (case isValidAccountId (debit_account parsed) of
        Inl e \<Rightarrow> Inl e
      | Inr debitOk \<Rightarrow>
     if \<not> debitOk then throwAppError INVALID_ACCOUNT_ID INVLDDATA
     else case isValidAccountId (credit_account parsed) of
        Inl e \<Rightarrow> Inl e
      | Inr creditOk \<Rightarrow>
     if \<not> creditOk then throwAppError INVALID_ACCOUNT_ID INVLDDATA
     else if debit_account parsed = credit_account parsed
     then throwAppError SAME_ACCOUNT_ERROR INVLDDATA
     else
       let debitAccount = find (\<lambda>acc. Some (id_of acc) = debit_account parsed) accountObjs;
           creditAccount = find (\<lambda>acc. Some (id_of acc) = credit_account parsed) accountObjs
       in case debitAccount of
            None \<Rightarrow> throwAppError ACCOUNT_NOT_FOUND INVLDDATA
          | Some debitAcc \<Rightarrow>
       case creditAccount of
            None \<Rightarrow> throwAppError ACCOUNT_NOT_FOUND INVLDDATA
          | Some creditAcc \<Rightarrow>
       if toUpperCase (account.currency debitAcc) \<noteq> instruction.currency parsed
       then throwAppError CURRENCY_MISMATCH INVLDDATA
       else if toUpperCase (account.currency creditAcc) \<noteq> instruction.currency parsed
       then throwAppError CURRENCY_MISMATCH INVLDDATA
       else if balance debitAcc < amount parsed
       then throwAppError INSUFFICIENT_FUNDS INVLDDATA
       else if truthy (execute_by parsed) then
         (let date = Date_parse env (the (execute_by parsed))
          in if date = None then throwAppError INVALID_DATE_FORMAT INVLDDATA
             else if \<not> dateRegex_test (the (execute_by parsed))
             then throwAppError INVALID_DATE_FORMAT INVLDDATA
             else Inr ())
       else Inr ())"

subsection \<open>processAccounts\<close>

text \<open>
  The body of the \<open>forEach\<close> callback for the account object at \<open>accountRef\<close>;
  \<open>result\<close> is the address of the array being built.
\<close>

definition forEach_body :: "instruction \<Rightarrow> bool \<Rightarrow> nat \<Rightarrow> store \<Rightarrow> nat \<Rightarrow> store" where
  "forEach_body parsed shouldExecute result h accountRef =
     (case account_at h accountRef of
        None \<Rightarrow> h
      | Some acc \<Rightarrow>
          if Some (id_of acc) = debit_account parsed \<or> Some (id_of acc) = credit_account parsed
          then
            let balanceBefore = balance acc;
                balanceAfter =
                  (if shouldExecute then
                     (if Some (id_of acc) = debit_account parsed
                      then balanceBefore - amount parsed
                      else if Some (id_of acc) = credit_account parsed
                      then balanceBefore + amount parsed
                      else balanceBefore)
                   else balanceBefore);
                (h1, obj) =
                  alloc h (Projected \<lparr>id_of = id_of acc, balance = balanceAfter,
                                       currency = toUpperCase (account.currency acc),
                                       balance_before = balanceBefore\<rparr>)
            in push h1 result obj
          else h)"

definition processAccounts :: "store \<Rightarrow> nat \<Rightarrow> instruction \<Rightarrow> bool \<Rightarrow> store \<times> nat" where
  "processAccounts h accountsRef parsed shouldExecute =
     (let (h1, result) = alloc h (Array [])
      in (foldl (forEach_body parsed shouldExecute result) h1 (array_elems h accountsRef),
          result))"

subsection \<open>parseInstruction\<close>

record response = instruction +
  status :: string
  status_reason :: payment_message
  status_code :: string
  accounts :: nat

text \<open>
  \<open>serviceData\<close> is given by its two fields: the address of the accounts array and the
  instruction string. \<open>validator.validate\<close> is an external schema check; a request that
  does not fit the schema is out of the module's hands and is \<open>None\<close> here. The
  \<open>catch\<close> block logs and throws the error again.
\<close>

definition parseInstruction ::
    "env \<Rightarrow> store \<Rightarrow> nat \<Rightarrow> string \<Rightarrow> (store \<times> (error + response)) option" where
  "parseInstruction env h accountsRef instructionStr =
     (case readAccounts h accountsRef of
        None \<Rightarrow> None
      | Some accountObjs \<Rightarrow>
          Some
           (let instruction = trim instructionStr
            in case parseInstructionText instruction of
                 Inl e \<Rightarrow> (h, Inl e)
               | Inr parsed \<Rightarrow>
                   (case validateParsedData env parsed accountObjs of
                      Inl e \<Rightarrow> (h, Inl e)
                    | Inr _ \<Rightarrow>
                        let shouldExecute = shouldExecuteNow env (execute_by parsed);
                            (h', processedAccounts) =
                              processAccounts h accountsRef parsed shouldExecute
                        in (h',
                            Inr \<lparr>type = type parsed, amount = amount parsed,
                                 currency = instruction.currency parsed,
                                 debit_account = debit_account parsed,
                                 credit_account = credit_account parsed,
                                 execute_by = execute_by parsed,
                                 status = (if shouldExecute then ''successful'' else ''pending''),
                                 status_reason =
                                   (if shouldExecute then TRANSACTION_SUCCESSFUL
                                    else TRANSACTION_PENDING),
                                 status_code = (if shouldExecute then ''AP00'' else ''AP02''),
                                 accounts = processedAccounts\<rparr>))))"

section \<open>Notions used to state the properties\<close>

text \<open>
  The nine rules of the validator, each as a condition of its own paired with the message
  of its violation, in the order of the specification: both account ids well formed
  (not empty, every character among the allowed ones), the two ids different, both
  accounts present, both currencies equal to the instruction's, the debit balance
  sufficient, and the execution date, when there is one, a date in the form
  \<open>YYYY-MM-DD\<close>. \<open>first_violation\<close> is the message of the first rule that does not
  hold.
\<close>

definition well_formed_id :: "string option \<Rightarrow> bool" where
  "well_formed_id v =
     (case v of None \<Rightarrow> False | Some s \<Rightarrow> s \<noteq> [] \<and> (\<forall>c\<in>set s. c \<in> set VALID_ACCOUNT_CHARS))"

definition account_with_id :: "account list \<Rightarrow> string option \<Rightarrow> account option" where
  "account_with_id accountObjs v = find (\<lambda>acc. Some (id_of acc) = v) accountObjs"

definition validation_rules ::
    "env \<Rightarrow> instruction \<Rightarrow> account list \<Rightarrow> (bool \<times> payment_message) list" where
  "validation_rules env p accountObjs =
     [(well_formed_id (debit_account p), INVALID_ACCOUNT_ID),
      (well_formed_id (credit_account p), INVALID_ACCOUNT_ID),
      (debit_account p \<noteq> credit_account p, SAME_ACCOUNT_ERROR),
      (\<exists>acc\<in>set accountObjs. Some (id_of acc) = debit_account p, ACCOUNT_NOT_FOUND),
      (\<exists>acc\<in>set accountObjs. Some (id_of acc) = credit_account p, ACCOUNT_NOT_FOUND),
      (case account_with_id accountObjs (debit_account p) of
         None \<Rightarrow> False
       | Some acc \<Rightarrow> toUpperCase (account.currency acc) = instruction.currency p,
       CURRENCY_MISMATCH),
      (case account_with_id accountObjs (credit_account p) of
         None \<Rightarrow> False
       | Some acc \<Rightarrow> toUpperCase (account.currency acc) = instruction.currency p,
       CURRENCY_MISMATCH),
      (case account_with_id accountObjs (debit_account p) of
         None \<Rightarrow> False
       | Some acc \<Rightarrow> amount p \<le> balance acc,
       INSUFFICIENT_FUNDS),
      (case execute_by p of
         None \<Rightarrow> True
       | Some s \<Rightarrow> s = [] \<or> (Date_parse env s \<noteq> None \<and> dateRegex_test s),
       INVALID_DATE_FORMAT)]"

fun first_violation :: "(bool \<times> payment_message) list \<Rightarrow> payment_message option" where
  "first_violation [] = None"
| "first_violation ((holds, message) # rules) =
     (if holds then first_violation rules else Some message)"

text \<open>
  An account is referenced by an instruction when its id is the debit or the credit
  account; \<open>projection\<close> is the object the projector builds for a referenced account, and
  \<open>response_of\<close> the response built from a parsed instruction and the address of the
  projected list.
\<close>

definition referenced :: "instruction \<Rightarrow> account \<Rightarrow> bool" where
  "referenced p acc \<longleftrightarrow>
     Some (id_of acc) = debit_account p \<or> Some (id_of acc) = credit_account p"

definition projection :: "instruction \<Rightarrow> bool \<Rightarrow> account \<Rightarrow> projected_account" where
  "projection p executes acc =
     \<lparr>id_of = id_of acc,
      balance =
        (if executes \<and> Some (id_of acc) = debit_account p then balance acc - amount p
         else if executes \<and> Some (id_of acc) = credit_account p then balance acc + amount p
         else balance acc),
      currency = toUpperCase (account.currency acc),
      balance_before = balance acc\<rparr>"

definition response_of :: "env \<Rightarrow> instruction \<Rightarrow> nat \<Rightarrow> response" where
  "response_of env p out =
     \<lparr>type = type p, amount = amount p, currency = instruction.currency p,
      debit_account = debit_account p, credit_account = credit_account p,
      execute_by = execute_by p,
      status = (if shouldExecuteNow env (execute_by p) then ''successful'' else ''pending''),
      status_reason = (if shouldExecuteNow env (execute_by p)
                       then TRANSACTION_SUCCESSFUL else TRANSACTION_PENDING),
      status_code = (if shouldExecuteNow env (execute_by p) then ''AP00'' else ''AP02''),
      accounts = out\<rparr>"

section \<open>Example requests\<close>

text \<open>
  The clock of the examples is 2026-11-02T13:00Z. \<open>env_utc\<close> is a process in UTC and
  \<open>env_utc_minus_5\<close> one five hours west of it, where the same moment is 08:00 of
  2026-11-02. Their engines accept no string beyond the calendar dates of the form
  \<open>YYYY-MM-DD\<close>; the engine of \<open>env_lenient\<close> parses every other string as the epoch.
\<close>

definition no_engine_dates :: "string \<Rightarrow> int option" where
  "no_engine_dates s = None"


definition env_utc :: env where
  "env_utc = \<lparr>now = 1793624400000, LocalTZA = 0, engineDateParse = no_engine_dates\<rparr>"

definition env_utc_minus_5 :: env where
  "env_utc_minus_5 =
     \<lparr>now = 1793624400000, LocalTZA = - 18000000, engineDateParse = no_engine_dates\<rparr>"


text \<open>
  The accounts array at address 0 holds \<open>A001\<close> (1000 NGN) and \<open>B002\<close> (200 NGN); in
  \<open>duplicate_store\<close> a second account object has the id \<open>A001\<close> too.
\<close>

definition example_accounts :: "account list" where
  "example_accounts =
     [\<lparr>id_of = ''A001'', balance = 1000, currency = ''NGN''\<rparr>,
      \<lparr>id_of = ''B002'', balance = 200, currency = ''NGN''\<rparr>]"

definition example_store :: store where
  "example_store =
     [Array [1, 2],
      Account \<lparr>id_of = ''A001'', balance = 1000, currency = ''NGN''\<rparr>,
      Account \<lparr>id_of = ''B002'', balance = 200, currency = ''NGN''\<rparr>]"

definition duplicate_store :: store where
  "duplicate_store =
     [Array [1, 2, 3],
      Account \<lparr>id_of = ''A001'', balance = 1000, currency = ''NGN''\<rparr>,
      Account \<lparr>id_of = ''A001'', balance = 50, currency = ''NGN''\<rparr>,
      Account \<lparr>id_of = ''B002'', balance = 200, currency = ''NGN''\<rparr>]"

text \<open>
  The instruction of the specification's example, what the parser makes of it, and the
  store and the response after it has run on \<open>example_store\<close>.
\<close>

definition example_instruction :: string where
  "example_instruction = ''Debit 500 NGN from Account A001 for credit to Account B002''"

definition example_parsed :: instruction where
  "example_parsed =
     \<lparr>type = DEBIT, amount = 500, currency = ''NGN'', debit_account = Some ''A001'',
      credit_account = Some ''B002'', execute_by = None\<rparr>"

definition example_store_after :: store where
  "example_store_after =
     example_store @
       [Array [4, 5],
        Projected \<lparr>id_of = ''A001'', balance = 500, currency = ''NGN'',
                    balance_before = 1000\<rparr>,
        Projected \<lparr>id_of = ''B002'', balance = 700, currency = ''NGN'',
                    balance_before = 200\<rparr>]"

definition example_response :: response where
  "example_response =
     \<lparr>type = DEBIT, amount = 500, currency = ''NGN'', debit_account = Some ''A001'',
      credit_account = Some ''B002'', execute_by = None, status = ''successful'',
      status_reason = TRANSACTION_SUCCESSFUL, status_code = ''AP00'', accounts = 3\<rparr>"

section \<open>Properties\<close>

subsection \<open>The example\<close>

lemma example_readAccounts: "readAccounts example_store 0 = Some example_accounts"
  by code_simp



lemma example_run:
  "parseInstruction env_utc example_store 0 example_instruction
   = Some (example_store_after, Inr example_response)"
  by code_simp

subsection \<open>Untyped failure on a missing account token\<close>

text \<open>
  Claim C7. The module either returns the full response or raises one of its typed
  application errors, never an untyped error. The code does not keep this: when the
  instruction ends right after the last \<open>account\<close> keyword, the credit account is
  \<open>undefined\<close>, and \<open>isValidAccountId\<close> raises the engine's \<open>TypeError\<close> on it.
  The theorem evaluates the module on such a request.
\<close>

theorem missing_account_token_raises_TypeError:
  "parseInstruction env_utc example_store 0
     ''Debit 500 NGN from account A001 for credit to account''
   = Some (example_store, Inl TypeError)"
  by code_simp

subsection \<open>Execution date west of UTC\<close>

text \<open>
  Claim C2. An instruction whose \<open>execute_by\<close> date is strictly after the current
  calendar day is pending (status \<open>pending\<close>, code \<open>AP02\<close>, balances unchanged). The code
  does not keep this in a process west of UTC: \<open>new Date("2026-11-03")\<close> is midnight UTC,
  whose local day five hours west is 2026-11-02, the current day, so the transaction of
  the following day is executed at once. The theorem evaluates the module there.
\<close>

theorem next_day_executes_at_once_west_of_UTC:
  "parseInstruction env_utc_minus_5 example_store 0
     ''Debit 500 NGN from account A001 for credit to account B002 on 2026-11-03''
   = Some (example_store @
            [Array [4, 5],
             Projected \<lparr>id_of = ''A001'', balance = 500, currency = ''NGN'',
                         balance_before = 1000\<rparr>,
             Projected \<lparr>id_of = ''B002'', balance = 700, currency = ''NGN'',
                         balance_before = 200\<rparr>],
           Inr \<lparr>type = DEBIT, amount = 500, currency = ''NGN'',
                debit_account = Some ''A001'', credit_account = Some ''B002'',
                execute_by = Some ''2026-11-03'', status = ''successful'',
                status_reason = TRANSACTION_SUCCESSFUL, status_code = ''AP00'',
                accounts = 3\<rparr>)"
  by code_simp

text \<open>
  In a process in UTC the same request, at the same moment, is pending and the balances
  are the supplied ones.
\<close>

lemma next_day_is_pending_in_UTC:
  "parseInstruction env_utc example_store 0
     ''Debit 500 NGN from account A001 for credit to account B002 on 2026-11-03''
   = Some (example_store @
            [Array [4, 5],
             Projected \<lparr>id_of = ''A001'', balance = 1000, currency = ''NGN'',
                         balance_before = 1000\<rparr>,
             Projected \<lparr>id_of = ''B002'', balance = 200, currency = ''NGN'',
                         balance_before = 200\<rparr>],
           Inr \<lparr>type = DEBIT, amount = 500, currency = ''NGN'',
                debit_account = Some ''A001'', credit_account = Some ''B002'',
                execute_by = Some ''2026-11-03'', status = ''pending'',
                status_reason = TRANSACTION_PENDING, status_code = ''AP02'',
                accounts = 3\<rparr>)"
  by code_simp

text \<open>
  The dates involved: the execution date is day 20760 since the epoch, the clock is in day
  20759, and five hours west of UTC the local day of the execution date's midnight is the
  second of the month.
\<close>

lemma west_of_UTC_dates:
  "Date_parse env_utc_minus_5 ''2026-11-03'' = Some (20760 * msPerDay)"
  "Day (now env_utc_minus_5) = 20759"
  "getDate env_utc_minus_5 (Date_parse env_utc_minus_5 ''2026-11-03'') = Some 2"
  "getDate env_utc_minus_5 (Some (now env_utc_minus_5)) = Some 2"
  "getDate env_utc (Date_parse env_utc ''2026-11-03'') = Some 3"
  by code_simp+

subsection \<open>Keyword lookup of the debit-format parser\<close>

lemma findKeywordIndex_ge: "- 1 \<le> findKeywordIndex ws kw i"
  by (induction ws kw i rule: findKeywordIndex.induct) (subst findKeywordIndex.simps, simp)

lemma findKeywordIndex_none:
  "findKeywordIndex ws kw i = - 1 \<longleftrightarrow>
     (\<forall>j. i \<le> j \<and> j < length ws \<longrightarrow> toLowerCase (ws ! j) \<noteq> toLowerCase kw)"
proof (induction ws kw i rule: findKeywordIndex.induct)
  case (1 ws kw i)
  show ?case
  proof (cases "i < length ws")
    case False
    then show ?thesis by (subst findKeywordIndex.simps) auto
  next
    case inside: True
    show ?thesis
    proof (cases "toLowerCase (ws ! i) = toLowerCase kw")
      case True
      with inside show ?thesis by (subst findKeywordIndex.simps) auto
    next
      case False
      have "findKeywordIndex ws kw i = findKeywordIndex ws kw (i + 1)"
        using inside False by (subst findKeywordIndex.simps) simp
      moreover have "(\<forall>j. i \<le> j \<and> j < length ws \<longrightarrow> toLowerCase (ws ! j) \<noteq> toLowerCase kw)
          \<longleftrightarrow> (\<forall>j. i + 1 \<le> j \<and> j < length ws \<longrightarrow> toLowerCase (ws ! j) \<noteq> toLowerCase kw)"
        using False by (metis Suc_eq_plus1 Suc_leI le_eq_less_or_eq le_add1 le_trans)
      ultimately show ?thesis using "1.IH" [OF inside False] by simp
    qed
  qed
qed

lemma findKeywordIndex_found:
  "findKeywordIndex ws kw i \<noteq> - 1 \<Longrightarrow>
     (\<exists>k. findKeywordIndex ws kw i = int k \<and> i \<le> k \<and> k < length ws
        \<and> toLowerCase (ws ! k) = toLowerCase kw
        \<and> (\<forall>j. i \<le> j \<and> j < k \<longrightarrow> toLowerCase (ws ! j) \<noteq> toLowerCase kw))"
proof (induction ws kw i rule: findKeywordIndex.induct)
  case (1 ws kw i)
  show ?case
  proof (cases "i < length ws")
    case False
    then have "findKeywordIndex ws kw i = - 1" by (subst findKeywordIndex.simps) simp
    with "1.prems" show ?thesis by simp
  next
    case inside: True
    show ?thesis
    proof (cases "toLowerCase (ws ! i) = toLowerCase kw")
      case True
      then have "findKeywordIndex ws kw i = int i"
        using inside by (subst findKeywordIndex.simps) simp
      with inside True show ?thesis by auto
    next
      case False
      have eq: "findKeywordIndex ws kw i = findKeywordIndex ws kw (i + 1)"
        using inside False by (subst findKeywordIndex.simps) simp
      with "1.prems" "1.IH" [OF inside False] obtain k where
        k: "findKeywordIndex ws kw (i + 1) = int k" "i + 1 \<le> k" "k < length ws"
           "toLowerCase (ws ! k) = toLowerCase kw"
           "\<forall>j. i + 1 \<le> j \<and> j < k \<longrightarrow> toLowerCase (ws ! j) \<noteq> toLowerCase kw"
        by auto
      have "\<forall>j. i \<le> j \<and> j < k \<longrightarrow> toLowerCase (ws ! j) \<noteq> toLowerCase kw"
        using k(5) False by (metis Suc_eq_plus1 Suc_leI le_eq_less_or_eq)
      with k eq show ?thesis by auto
    qed
  qed
qed


lemma lower_keywords:
  "toLowerCase ''debit'' = ''debit''" "toLowerCase ''from'' = ''from''"
  "toLowerCase ''for'' = ''for''" "toLowerCase ''to'' = ''to''"
  "toLowerCase ''credit'' = ''credit''" "toLowerCase ''on'' = ''on''"
  by code_simp+

lemma parseDebitFormat_keyword_order:
  "parseDebitFormat words = Inl (AppError INVALID_KEYWORD_ORDER INVLDDATA) \<longleftrightarrow>
     findKeywordIndex words ''debit'' 0 = - 1 \<or> findKeywordIndex words ''from'' 0 = - 1
     \<or> findKeywordIndex words ''for'' 0 = - 1
     \<or> findKeywordIndex words ''to'' (nat (findKeywordIndex words ''for'' 0 + 1)) = - 1"
proof -
  have "findKeywordIndex words ''for'' 0 + 1 \<noteq> - 1"
    using findKeywordIndex_ge [of words "''for''" 0] by simp
  then show ?thesis
    by (auto simp: parseDebitFormat_def Let_def throwAppError_def split: option.splits)
qed

lemma first_for_then_to:
  "findKeywordIndex words ''for'' 0 \<noteq> - 1
     \<and> findKeywordIndex words ''to'' (nat (findKeywordIndex words ''for'' 0 + 1)) \<noteq> - 1
   \<longleftrightarrow> (\<exists>i j. i < j \<and> j < length words \<and> toLowerCase (words ! i) = ''for''
          \<and> (\<forall>k<i. toLowerCase (words ! k) \<noteq> ''for'') \<and> toLowerCase (words ! j) = ''to'')"
  (is "?L \<longleftrightarrow> ?R")
proof
  assume l: ?L
  then obtain i where i: "findKeywordIndex words ''for'' 0 = int i" "i < length words"
      "toLowerCase (words ! i) = ''for''" "\<forall>k. 0 \<le> k \<and> k < i \<longrightarrow> toLowerCase (words ! k) \<noteq> ''for''"
    using findKeywordIndex_found [of words "''for''" 0] by (auto simp: lower_keywords)
  from l i(1) have "findKeywordIndex words ''to'' (i + 1) \<noteq> - 1"
    by (simp add: nat_add_distrib)
  then obtain j where j: "i + 1 \<le> j" "j < length words" "toLowerCase (words ! j) = ''to''"
    using findKeywordIndex_found [of words "''to''" "i + 1"] by (auto simp: lower_keywords)
  from i j show ?R by (intro exI [of _ i] exI [of _ j]) auto
next
  assume ?R
  then obtain i j where ij: "i < j" "j < length words" "toLowerCase (words ! i) = ''for''"
      "\<forall>k<i. toLowerCase (words ! k) \<noteq> ''for''" "toLowerCase (words ! j) = ''to''"
    by blast
  have "i < length words"
    using ij by simp
  then have found: "findKeywordIndex words ''for'' 0 \<noteq> - 1"
    unfolding findKeywordIndex_none lower_keywords using ij(3) by auto
  then obtain k where k: "findKeywordIndex words ''for'' 0 = int k" "k < length words"
      "toLowerCase (words ! k) = ''for''" "\<forall>m. 0 \<le> m \<and> m < k \<longrightarrow> toLowerCase (words ! m) \<noteq> ''for''"
    using findKeywordIndex_found [of words "''for''" 0] by (auto simp: lower_keywords)
  have "k = i"
    using ij(3,4) k(3,4) by (meson le0 linorder_neqE_nat)
  moreover have "\<exists>m\<ge>Suc i. m < length words \<and> toLowerCase (words ! m) = ''to''"
    using ij(1,2,5) by (intro exI [of _ j]) simp
  ultimately have
    "findKeywordIndex words ''to'' (nat (findKeywordIndex words ''for'' 0 + 1)) \<noteq> - 1"
    using k(1) by (simp add: findKeywordIndex_none lower_keywords nat_add_distrib)
  with found show ?L by simp
qed

text \<open>
  Claim C4, as the code has it. The debit-format parser looks up, without regard to case,
  the first \<open>debit\<close>, the first \<open>from\<close> and the first \<open>for\<close>, each from the start
  of the tokens and whatever their order, and then the first \<open>to\<close> after that \<open>for\<close>.
  It fails with the message \<open>INVALID_KEYWORD_ORDER\<close> exactly when one of the four is not
  found. That \<open>debit\<close> comes before \<open>from\<close> and \<open>from\<close> before \<open>for\<close> is not
  required.
\<close>

theorem debit_keyword_lookup:
  "parseDebitFormat words \<noteq> Inl (AppError INVALID_KEYWORD_ORDER INVLDDATA) \<longleftrightarrow>
     (\<exists>d<length words. toLowerCase (words ! d) = ''debit'')
     \<and> (\<exists>f<length words. toLowerCase (words ! f) = ''from'')
     \<and> (\<exists>i j. i < j \<and> j < length words \<and> toLowerCase (words ! i) = ''for''
          \<and> (\<forall>k<i. toLowerCase (words ! k) \<noteq> ''for'') \<and> toLowerCase (words ! j) = ''to'')"
proof -
  have d: "findKeywordIndex words ''debit'' 0 \<noteq> - 1
      \<longleftrightarrow> (\<exists>d<length words. toLowerCase (words ! d) = ''debit'')"
    by (auto simp: findKeywordIndex_none lower_keywords)
  have f: "findKeywordIndex words ''from'' 0 \<noteq> - 1
      \<longleftrightarrow> (\<exists>f<length words. toLowerCase (words ! f) = ''from'')"
    by (auto simp: findKeywordIndex_none lower_keywords)
  show ?thesis
    unfolding parseDebitFormat_keyword_order de_Morgan_disj d f
    using first_for_then_to [of words] by blast
qed

theorem debit_keyword_lookup_witness:
  "parseDebitFormat [''from'', ''for'', ''to'', ''debit'']
     \<noteq> Inl (AppError INVALID_KEYWORD_ORDER INVLDDATA)"
proof -
  let ?ws = "[''from'', ''for'', ''to'', ''debit'']"
  have "\<exists>d<length ?ws. toLowerCase (?ws ! d) = ''debit''"
    by (intro exI [of _ 3]) code_simp
  moreover have "\<exists>f<length ?ws. toLowerCase (?ws ! f) = ''from''"
    by (intro exI [of _ 0]) code_simp
  moreover have "\<exists>i j. i < j \<and> j < length ?ws \<and> toLowerCase (?ws ! i) = ''for''
          \<and> (\<forall>k<i. toLowerCase (?ws ! k) \<noteq> ''for'') \<and> toLowerCase (?ws ! j) = ''to''"
    by (rule exI [of _ 1], rule exI [of _ 2])
      (simp add: toLowerCase_def toLowerCase_char_def)
  ultimately show ?thesis
    using debit_keyword_lookup [of ?ws] by blast
qed

text \<open>
  The claim as it was stated asks for a failure whenever the anchors are not in the order
  \<open>debit\<close>, \<open>from\<close>, \<open>for\<close>, \<open>to\<close>. Here \<open>debit\<close> is the last anchor and the
  tokens are parsed.
\<close>

theorem debit_keyword_order_counterexample:
  "parseDebitFormat
     [''from'', ''account'', ''A001'', ''for'', ''to'', ''account'', ''B002'',
      ''debit'', ''500'', ''NGN'']
   = Inr \<lparr>type = DEBIT, amount = 500, currency = ''NGN'', debit_account = Some ''A001'',
           credit_account = Some ''B002'', execute_by = None\<rparr>"
  by code_simp

subsection \<open>The amount\<close>





subsection \<open>Format detection\<close>

lemma parseDebitFormat_not_malformed:
  "parseDebitFormat words \<noteq> Inl (AppError MALFORMED_INSTRUCTION c)"
  by (auto simp: parseDebitFormat_def Let_def throwAppError_def split: option.splits if_splits)

lemma parseCreditFormat_not_malformed:
  "parseCreditFormat words \<noteq> Inl (AppError MALFORMED_INSTRUCTION c)"
  by (auto simp: parseCreditFormat_def Let_def throwAppError_def split: option.splits if_splits)

text \<open>
  Claim C8, as the code has it. The debit check (the lowercased instruction contains
  \<open>debit\<close>, \<open>from account\<close> and \<open>for credit to account\<close>) is made first and, when it
  holds, the debit-format parser is used, whether or not the credit check (\<open>credit\<close>,
  \<open>to account\<close>, \<open>for debit from account\<close>) holds too; the credit-format parser is
  used when only the credit check holds; and the detector fails with
  \<open>MALFORMED_INSTRUCTION\<close> exactly when neither check holds.
\<close>

theorem format_detection:
  "(isDebitFormat (toLowerCase s) \<longrightarrow> parseInstructionText s = parseDebitFormat (tokenize s))
   \<and> (\<not> isDebitFormat (toLowerCase s) \<and> isCreditFormat (toLowerCase s)
        \<longrightarrow> parseInstructionText s = parseCreditFormat (tokenize s))
   \<and> (parseInstructionText s = Inl (AppError MALFORMED_INSTRUCTION INVLDDATA)
        \<longleftrightarrow> \<not> isDebitFormat (toLowerCase s) \<and> \<not> isCreditFormat (toLowerCase s))"
  by (simp add: parseInstructionText_def Let_def throwAppError_def
        parseDebitFormat_not_malformed parseCreditFormat_not_malformed)

theorem format_detection_witness:
  "parseInstructionText ''for credit to account for debit from account''
     = parseDebitFormat (tokenize ''for credit to account for debit from account'')
   \<and> parseInstructionText ''pay 500 NGN to B002''
     = Inl (AppError MALFORMED_INSTRUCTION INVLDDATA)"
proof -
  have "isDebitFormat (toLowerCase ''for credit to account for debit from account'')"
    by code_simp
  moreover have "\<not> isDebitFormat (toLowerCase ''pay 500 NGN to B002'')"
    by code_simp
  moreover have "\<not> isCreditFormat (toLowerCase ''pay 500 NGN to B002'')"
    by code_simp
  ultimately show ?thesis
    using format_detection [of "''for credit to account for debit from account''"]
      format_detection [of "''pay 500 NGN to B002''"]
    by blast
qed

text \<open>
  The claim as it was stated says that the two checks cannot both hold. On this
  instruction both hold.
\<close>

theorem both_format_checks_hold_counterexample:
  "isDebitFormat (toLowerCase ''for credit to account for debit from account'')
   \<and> isCreditFormat (toLowerCase ''for credit to account for debit from account'')"
  by code_simp

subsection \<open>The validator\<close>

lemma isValidAccountId_loop_iff:
  "isValidAccountId_loop s \<longleftrightarrow> (\<forall>c\<in>set s. c \<in> set VALID_ACCOUNT_CHARS)"
  by (induction s) auto

lemma isValidAccountId_Some:
  "isValidAccountId (Some s) = Inr (well_formed_id (Some s))"
  by (auto simp: isValidAccountId_def well_formed_id_def isValidAccountId_loop_iff)

lemma find_account_None:
  "find (\<lambda>acc. Some (id_of acc) = v) accountObjs = None
     \<longleftrightarrow> \<not> (\<exists>acc\<in>set accountObjs. Some (id_of acc) = v)"
  by (auto simp: find_None_iff)

lemma validateParsedData_rules:
  assumes "debit_account p = Some d" and "credit_account p = Some c"
  shows "validateParsedData env p accountObjs =
           (case first_violation (validation_rules env p accountObjs) of
              None \<Rightarrow> Inr ()
            | Some message \<Rightarrow> Inl (AppError message INVLDDATA))"
proof -
  have ex_d: "(\<exists>acc\<in>set accountObjs. Some (id_of acc) = Some d)
      \<longleftrightarrow> find (\<lambda>acc. Some (id_of acc) = Some d) accountObjs \<noteq> None"
    using find_account_None [of "Some d" accountObjs] by simp
  have ex_c: "(\<exists>acc\<in>set accountObjs. Some (id_of acc) = Some c)
      \<longleftrightarrow> find (\<lambda>acc. Some (id_of acc) = Some c) accountObjs \<noteq> None"
    using find_account_None [of "Some c" accountObjs] by simp
  show ?thesis
    unfolding validateParsedData_def validation_rules_def account_with_id_def assms
      isValidAccountId_Some ex_d ex_c
    by (simp add: throwAppError_def Let_def truthy_def split: option.splits)
qed

text \<open>
  Claim C3, as the code has it. For a parsed instruction whose two account ids are
  defined, the validator reports the first violated of the nine rules, taken in their
  fixed order, and succeeds when none is violated. In particular, when the debit and the
  credit account are the same id, the result is \<open>SAME_ACCOUNT_ERROR\<close> if that id is
  well formed, whatever the other fields are, and \<open>INVALID_ACCOUNT_ID\<close> if it is not,
  since the two rules on the ids come first.
\<close>

theorem validation_order:
  assumes "debit_account p = Some d" and "credit_account p = Some c"
  shows "validateParsedData env p accountObjs =
           (case first_violation (validation_rules env p accountObjs) of
              None \<Rightarrow> Inr ()
            | Some message \<Rightarrow> Inl (AppError message INVLDDATA))
         \<and> (d = c \<longrightarrow>
              validateParsedData env p accountObjs =
                (if well_formed_id (Some d) then Inl (AppError SAME_ACCOUNT_ERROR INVLDDATA)
                 else Inl (AppError INVALID_ACCOUNT_ID INVLDDATA)))"
  using validateParsedData_rules [OF assms, of env accountObjs] assms
  by (simp add: validation_rules_def)

theorem validation_order_witness:
  "validateParsedData env_utc (example_parsed\<lparr>credit_account := Some ''A001''\<rparr>)
     example_accounts
   = Inl (AppError SAME_ACCOUNT_ERROR INVLDDATA)"
proof -
  let ?p = "example_parsed\<lparr>credit_account := Some ''A001''\<rparr>"
  have d: "debit_account ?p = Some ''A001''" and c: "credit_account ?p = Some ''A001''"
    by (simp_all add: example_parsed_def)
  have wf: "well_formed_id (Some ''A001'')"
    by code_simp
  have "validateParsedData env_utc ?p example_accounts =
      (if well_formed_id (Some ''A001'') then Inl (AppError SAME_ACCOUNT_ERROR INVLDDATA)
       else Inl (AppError INVALID_ACCOUNT_ID INVLDDATA))"
    using validation_order [OF d c, of env_utc example_accounts] by blast
  then show ?thesis
    using wf by simp
qed

text \<open>
  The claim as it was stated gives \<open>SAME_ACCOUNT_ERROR\<close> whenever the two accounts are
  equal. With the id \<open>A!\<close> on both sides, and an account of that id supplied, the
  first rule is the one reported.
\<close>

theorem same_malformed_account_counterexample:
  "validateParsedData env_utc
     \<lparr>type = DEBIT, amount = 500, currency = ''NGN'', debit_account = Some ''A!'',
      credit_account = Some ''A!'', execute_by = None\<rparr>
     [\<lparr>id_of = ''A!'', balance = 1000, currency = ''NGN''\<rparr>]
   = Inl (AppError INVALID_ACCOUNT_ID INVLDDATA)"
  by code_simp



subsection \<open>The projector and the store\<close>

lemma account_at_prefix:
  assumes "take n g = h0" and "account_at h0 r = Some acc"
  shows "account_at g r = Some acc"
proof -
  from assms(2) have r: "r < length h0" and cell: "h0 ! r = Account acc"
    by (auto simp: account_at_def lookup_def split: if_splits cell.splits)
  from assms(1) r have "r < n" "r < length g" by auto
  moreover from assms(1) \<open>r < n\<close> have "g ! r = h0 ! r" by (metis nth_take)
  ultimately show ?thesis using cell by (simp add: account_at_def lookup_def)
qed

lemma forEach_body_skip:
  assumes "account_at g r = Some acc" and "\<not> referenced p acc"
  shows "forEach_body p executes n g r = g"
  using assms by (simp add: forEach_body_def referenced_def)

lemma forEach_body_push:
  assumes "account_at g r = Some acc" and "referenced p acc"
    and "n < length g" and "g ! n = Array xs"
  shows "forEach_body p executes n g r =
           (g @ [Projected (projection p executes acc)])[n := Array (xs @ [length g])]"
  using assms
  by (auto simp: forEach_body_def referenced_def projection_def alloc_def push_def lookup_def
      nth_append Let_def)

lemma forEach_fold:
  assumes "take n g = h0" and "n < length g" and "g ! n = Array xs"
    and "\<forall>x\<in>set xs. n < x \<and> x < length g"
    and "map ((!) g) xs = map Projected ps"
    and "\<forall>r\<in>set refs. account_at h0 r \<noteq> None"
  shows "\<exists>ys. take n (foldl (forEach_body p executes n) g refs) = h0
           \<and> n < length (foldl (forEach_body p executes n) g refs)
           \<and> foldl (forEach_body p executes n) g refs ! n = Array (xs @ ys)
           \<and> (\<forall>x\<in>set (xs @ ys). n < x \<and> x < length (foldl (forEach_body p executes n) g refs))
           \<and> map ((!) (foldl (forEach_body p executes n) g refs)) (xs @ ys) =
               map Projected
                 (ps @ map (projection p executes)
                        (filter (referenced p) (map (\<lambda>r. the (account_at h0 r)) refs)))"
  using assms
proof (induction refs arbitrary: g xs ps)
  case Nil
  then show ?case by (intro exI [of _ "[]"]) simp
next
  case (Cons r refs)
  from Cons.prems(6) obtain acc where acc: "account_at h0 r = Some acc" by auto
  have acc_g: "account_at g r = Some acc"
    using account_at_prefix [OF Cons.prems(1) acc] .
  have rest: "\<forall>r\<in>set refs. account_at h0 r \<noteq> None"
    using Cons.prems(6) by simp
  show ?case
  proof (cases "referenced p acc")
    case False
    have step: "forEach_body p executes n g r = g"
      using forEach_body_skip [OF acc_g False] .
    show ?thesis
      using Cons.IH [OF Cons.prems(1-5) rest] acc False by (simp add: step)
  next
    case True
    let ?q = "projection p executes acc"
    let ?g = "(g @ [Projected ?q])[n := Array (xs @ [length g])]"
    have step: "forEach_body p executes n g r = ?g"
      using forEach_body_push [OF acc_g True Cons.prems(2,3)] .
    have 1: "take n ?g = h0"
      using Cons.prems(1,2) by simp
    have 2: "n < length ?g"
      using Cons.prems(2) by simp
    have 3: "?g ! n = Array (xs @ [length g])"
      using Cons.prems(2) by simp
    have 4: "\<forall>x\<in>set (xs @ [length g]). n < x \<and> x < length ?g"
      using Cons.prems(2,4) by auto
    have old: "?g ! x = g ! x" if "x \<in> set xs" for x
      using that Cons.prems(4) by (auto simp: nth_append)
    have "map ((!) ?g) xs = map ((!) g) xs"
      using old by simp
    moreover have "?g ! length g = Projected ?q"
      using Cons.prems(2) by simp
    ultimately have 5: "map ((!) ?g) (xs @ [length g]) = map Projected (ps @ [?q])"
      using Cons.prems(5) by simp
    from Cons.IH [OF 1 2 3 4 5 rest] obtain ys where
      ys: "take n (foldl (forEach_body p executes n) ?g refs) = h0"
          "n < length (foldl (forEach_body p executes n) ?g refs)"
          "foldl (forEach_body p executes n) ?g refs ! n = Array ((xs @ [length g]) @ ys)"
          "\<forall>x\<in>set ((xs @ [length g]) @ ys).
              n < x \<and> x < length (foldl (forEach_body p executes n) ?g refs)"
          "map ((!) (foldl (forEach_body p executes n) ?g refs)) ((xs @ [length g]) @ ys) =
             map Projected
               ((ps @ [?q]) @ map (projection p executes)
                  (filter (referenced p) (map (\<lambda>r. the (account_at h0 r)) refs)))"
      by blast
    show ?thesis
      using ys acc True by (intro exI [of _ "length g # ys"]) (simp add: step)
  qed
qed

lemma readAccounts_SomeD:
  assumes "readAccounts h arr = Some accountObjs"
  shows "\<exists>refs. lookup h arr = Some (Array refs) \<and> array_elems h arr = refs
           \<and> (\<forall>r\<in>set refs. account_at h r \<noteq> None)
           \<and> accountObjs = map (\<lambda>r. the (account_at h r)) refs"
  using assms
  by (auto simp: readAccounts_def array_elems_def list_all_iff
      split: option.splits cell.splits if_splits)

lemma projected_at_cell:
  "x < length g \<Longrightarrow> g ! x = Projected q \<Longrightarrow> projected_at g x = Some q"
  by (simp add: projected_at_def lookup_def)

lemma projected_cells:
  assumes "\<forall>x\<in>set ys. x < length g" and "map ((!) g) ys = map Projected qs"
  shows "list_all (\<lambda>a. projected_at g a \<noteq> None) ys
         \<and> map (\<lambda>a. the (projected_at g a)) ys = qs"
  using assms
proof (induction ys arbitrary: qs)
  case Nil
  then show ?case by simp
next
  case (Cons y ys)
  from Cons.prems(2) obtain q qs' where qs: "qs = q # qs'" "g ! y = Projected q"
      "map ((!) g) ys = map Projected qs'"
    by (cases qs) auto
  from Cons.prems(1) have "y < length g" by simp
  then have "projected_at g y = Some q"
    using qs(2) by (rule projected_at_cell)
  moreover have "list_all (\<lambda>a. projected_at g a \<noteq> None) ys
      \<and> map (\<lambda>a. the (projected_at g a)) ys = qs'"
    using Cons.IH [OF _ qs(3)] Cons.prems(1) by simp
  ultimately show ?case
    using qs(1) by simp
qed

lemma processAccounts_result:
  assumes "readAccounts h arr = Some accountObjs"
  shows "\<exists>h' ys. processAccounts h arr p executes = (h', length h)
           \<and> take (length h) h' = h \<and> length h < length h'
           \<and> array_elems h' (length h) = ys
           \<and> (\<forall>x\<in>set ys. length h < x \<and> projected_at h' x \<noteq> None)
           \<and> readProjected h' (length h) =
               Some (map (projection p executes) (filter (referenced p) accountObjs))"
proof -
  from readAccounts_SomeD [OF assms] obtain refs where
    refs: "array_elems h arr = refs" "\<forall>r\<in>set refs. account_at h r \<noteq> None"
          "accountObjs = map (\<lambda>r. the (account_at h r)) refs"
    by blast
  let ?n = "length h"
  let ?g = "h @ [Array []]"
  let ?h' = "foldl (forEach_body p executes ?n) ?g refs"
  have run: "processAccounts h arr p executes = (?h', ?n)"
    by (simp add: processAccounts_def alloc_def refs(1))
  have "\<exists>ys. take ?n ?h' = h \<and> ?n < length ?h' \<and> ?h' ! ?n = Array ([] @ ys)
          \<and> (\<forall>x\<in>set ([] @ ys). ?n < x \<and> x < length ?h')
          \<and> map ((!) ?h') ([] @ ys) =
               map Projected
                 ([] @ map (projection p executes)
                        (filter (referenced p) (map (\<lambda>r. the (account_at h r)) refs)))"
    by (rule forEach_fold) (use refs(2) in simp_all)
  then obtain ys where
    ys: "take ?n ?h' = h" "?n < length ?h'" "?h' ! ?n = Array ys"
        "\<forall>x\<in>set ys. ?n < x \<and> x < length ?h'"
        "map ((!) ?h') ys =
           map Projected (map (projection p executes) (filter (referenced p) accountObjs))"
    using refs(3) by auto
  from ys(4) have bound: "\<forall>x\<in>set ys. x < length ?h'" by simp
  note cells = projected_cells [OF bound ys(5)]
  have elems: "array_elems ?h' ?n = ys"
    using ys(2,3) by (simp add: array_elems_def lookup_def)
  have fresh: "\<forall>x\<in>set ys. ?n < x \<and> projected_at ?h' x \<noteq> None"
    using ys(4) cells by (simp add: list_all_iff)
  have "readProjected ?h' ?n =
          Some (map (projection p executes) (filter (referenced p) accountObjs))"
    using ys(2,3) cells by (simp add: readProjected_def lookup_def)
  with run ys(1,2) elems fresh show ?thesis by blast
qed

lemma lookup_prefix:
  assumes "take (length h) h' = h" and "a < length h"
  shows "lookup h' a = lookup h a"
proof -
  from assms have "a < length h'"
    by (metis length_take min_less_iff_conj)
  moreover from assms have "h' ! a = h ! a"
    by (metis nth_take)
  ultimately show ?thesis using assms(2) by (simp add: lookup_def)
qed

lemma readAccounts_prefix:
  assumes "take (length h) h' = h" and "readAccounts h arr = Some accountObjs"
  shows "readAccounts h' arr = Some accountObjs"
proof -
  from readAccounts_SomeD [OF assms(2)] obtain refs where
    refs: "lookup h arr = Some (Array refs)" "\<forall>r\<in>set refs. account_at h r \<noteq> None"
          "accountObjs = map (\<lambda>r. the (account_at h r)) refs"
    by blast
  from refs(1) have "arr < length h"
    by (simp add: lookup_def split: if_splits)
  then have arr: "lookup h' arr = Some (Array refs)"
    using lookup_prefix [OF assms(1)] refs(1) by simp
  have same: "account_at h' r = account_at h r" if "r \<in> set refs" for r
  proof -
    from refs(2) that obtain acc where "account_at h r = Some acc" by auto
    with account_at_prefix [OF assms(1) this] show ?thesis by simp
  qed
  then have "list_all (\<lambda>a. account_at h' a \<noteq> None) refs"
    using refs(2) by (simp add: list_all_iff)
  moreover have "map (\<lambda>a. the (account_at h' a)) refs = accountObjs"
    using same refs(3) by simp
  ultimately show ?thesis
    using arr by (simp add: readAccounts_def)
qed

lemma validateParsedData_accounts:
  assumes "validateParsedData env p accountObjs = Inr u"
  shows "(\<exists>acc\<in>set accountObjs. Some (id_of acc) = debit_account p)
         \<and> (\<exists>acc\<in>set accountObjs. Some (id_of acc) = credit_account p)
         \<and> debit_account p \<noteq> credit_account p"
proof -
  from assms have "find (\<lambda>acc. Some (id_of acc) = debit_account p) accountObjs \<noteq> None"
      and "find (\<lambda>acc. Some (id_of acc) = credit_account p) accountObjs \<noteq> None"
      and "debit_account p \<noteq> credit_account p"
    by (auto simp: validateParsedData_def throwAppError_def Let_def
        split: sum.splits option.splits if_splits)
  then show ?thesis
    by (simp add: find_account_None)
qed


lemma parseInstruction_SomeD:
  assumes "parseInstruction env h arr s = Some (h', outcome)"
  shows "(h' = h \<and> (\<exists>e. outcome = Inl e))
         \<or> (\<exists>accountObjs p out.
               readAccounts h arr = Some accountObjs
               \<and> parseInstructionText (trim s) = Inr p
               \<and> validateParsedData env p accountObjs = Inr ()
               \<and> processAccounts h arr p (shouldExecuteNow env (execute_by p)) = (h', out)
               \<and> outcome = Inr (response_of env p out))"
  using assms
  by (auto simp: parseInstruction_def Let_def response_of_def
      split: option.splits sum.splits prod.splits)



lemma filter_one_id:
  "distinct (map id_of xs) \<Longrightarrow> \<exists>a\<in>set xs. id_of a = d
     \<Longrightarrow> length (filter (\<lambda>a. id_of a = d) xs) = 1"
proof (induction xs)
  case Nil
  then show ?case by simp
next
  case (Cons x xs)
  show ?case
  proof (cases "id_of x = d")
    case True
    with Cons.prems(1) have "\<forall>a\<in>set xs. id_of a \<noteq> d" by (auto simp: image_iff)
    then have "filter (\<lambda>a. id_of a = d) xs = []" by (simp add: filter_empty_conv)
    with True show ?thesis by simp
  next
    case False
    with Cons show ?thesis by auto
  qed
qed

lemma filter_either:
  "\<forall>a\<in>set xs. \<not> (P a \<and> Q a)
     \<Longrightarrow> length (filter (\<lambda>a. P a \<or> Q a) xs) = length (filter P xs) + length (filter Q xs)"
  by (induction xs) auto

lemma filter_nonempty: "\<exists>a\<in>set xs. P a \<Longrightarrow> 1 \<le> length (filter P xs)"
  by (induction xs) auto

lemma referenced_count:
  assumes "\<exists>a\<in>set xs. Some (id_of a) = debit_account p"
    and "\<exists>a\<in>set xs. Some (id_of a) = credit_account p"
    and "debit_account p \<noteq> credit_account p"
  shows "2 \<le> length (filter (referenced p) xs)
         \<and> (distinct (map id_of xs) \<longrightarrow> length (filter (referenced p) xs) = 2)"
proof -
  from assms(1,2) obtain d c where dc: "debit_account p = Some d" "credit_account p = Some c"
    by (metis)
  with assms(3) have "d \<noteq> c" by simp
  moreover have "referenced p = (\<lambda>a. id_of a = d \<or> id_of a = c)"
    by (simp add: fun_eq_iff referenced_def dc)
  ultimately have split: "length (filter (referenced p) xs) =
      length (filter (\<lambda>a. id_of a = d) xs) + length (filter (\<lambda>a. id_of a = c) xs)"
    using filter_either [of xs "\<lambda>a. id_of a = d" "\<lambda>a. id_of a = c"]
    by simp
  have ex: "\<exists>a\<in>set xs. id_of a = d" "\<exists>a\<in>set xs. id_of a = c"
    using assms(1,2) dc by auto
  have "1 \<le> length (filter (\<lambda>a. id_of a = d) xs)" "1 \<le> length (filter (\<lambda>a. id_of a = c) xs)"
    using filter_nonempty [OF ex(1)] filter_nonempty [OF ex(2)] by simp_all
  then have "2 \<le> length (filter (referenced p) xs)"
    using split by simp
  moreover have "length (filter (referenced p) xs) = 2" if "distinct (map id_of xs)"
    using split filter_one_id [OF that ex(1)] filter_one_id [OF that ex(2)] by simp
  ultimately show ?thesis by simp
qed

text \<open>
  Claim C9, as the code has it. After a successful run the response's account list holds,
  in input order, one entry for each supplied account whose id is the instruction's debit
  or credit account, with that account's id and with \<open>balance_before\<close> equal to its
  supplied balance, and nothing for any other account. There are at least two entries,
  and exactly two when the ids of the supplied accounts are pairwise distinct.
\<close>

theorem projected_accounts:
  assumes "readAccounts h accountsRef = Some accountObjs"
    and "parseInstruction env h accountsRef instructionStr = Some (h', Inr r)"
  shows "\<exists>out.
           readProjected h' (accounts r) = Some out
           \<and> map (\<lambda>a. (id_of a, balance_before a)) out =
               map (\<lambda>a. (id_of a, balance a))
                 (filter (\<lambda>a. Some (id_of a) = debit_account r
                             \<or> Some (id_of a) = credit_account r) accountObjs)
           \<and> 2 \<le> length out
           \<and> (distinct (map id_of accountObjs) \<longrightarrow> length out = 2)"
proof -
  from parseInstruction_SomeD [OF assms(2)] assms(1) obtain p out where
    p: "validateParsedData env p accountObjs = Inr ()"
       "processAccounts h accountsRef p (shouldExecuteNow env (execute_by p)) = (h', out)"
       "r = response_of env p out"
    by auto
  let ?e = "shouldExecuteNow env (execute_by p)"
  let ?out = "map (projection p ?e) (filter (referenced p) accountObjs)"
  from processAccounts_result [OF assms(1), of p ?e] p(2)
  have "readProjected h' out = Some ?out"
    by auto
  then have read: "readProjected h' (accounts r) = Some ?out"
    by (simp add: p(3) response_of_def)
  have same: "(\<lambda>a. Some (id_of a) = debit_account r \<or> Some (id_of a) = credit_account r)
      = referenced p"
    by (simp add: p(3) response_of_def referenced_def fun_eq_iff)
  have ids: "map (\<lambda>a. (id_of a, balance_before a)) ?out =
      map (\<lambda>a. (id_of a, balance a)) (filter (referenced p) accountObjs)"
    by (simp add: projection_def comp_def)
  note acc = validateParsedData_accounts [OF p(1)]
  note count = referenced_count [OF acc [THEN conjunct1] acc [THEN conjunct2, THEN conjunct1]
      acc [THEN conjunct2, THEN conjunct2]]
  show ?thesis
    using read ids count by (simp add: same)
qed

theorem projected_accounts_witness:
  "\<exists>out. readProjected example_store_after 3 = Some out
     \<and> map (\<lambda>a. (id_of a, balance_before a)) out = [(''A001'', 1000), (''B002'', 200)]
     \<and> length out = 2"
proof -
  have "distinct (map id_of example_accounts)"
    by (simp add: example_accounts_def)
  moreover have "accounts example_response = 3"
    by (simp add: example_response_def)
  moreover have "map (\<lambda>a. (id_of a, balance a))
      (filter (\<lambda>a. Some (id_of a) = debit_account example_response
                 \<or> Some (id_of a) = credit_account example_response) example_accounts)
      = [(''A001'', 1000), (''B002'', 200)]"
    by (simp add: example_response_def example_accounts_def)
  ultimately show ?thesis
    using projected_accounts [OF example_readAccounts example_run] by auto
qed

text \<open>
  The claim as it was stated allows at most two entries. When two supplied accounts have
  the id \<open>A001\<close>, the response has three.
\<close>

theorem three_projected_accounts_counterexample:
  "parseInstruction env_utc duplicate_store 0 example_instruction
   = Some (duplicate_store @
            [Array [5, 6, 7],
             Projected \<lparr>id_of = ''A001'', balance = 500, currency = ''NGN'',
                         balance_before = 1000\<rparr>,
             Projected \<lparr>id_of = ''A001'', balance = - 450, currency = ''NGN'',
                         balance_before = 50\<rparr>,
             Projected \<lparr>id_of = ''B002'', balance = 700, currency = ''NGN'',
                         balance_before = 200\<rparr>],
           Inr \<lparr>type = DEBIT, amount = 500, currency = ''NGN'',
                debit_account = Some ''A001'', credit_account = Some ''B002'',
                execute_by = None, status = ''successful'',
                status_reason = TRANSACTION_SUCCESSFUL, status_code = ''AP00'',
                accounts = 4\<rparr>)"
  by code_simp

text \<open>
  Claim C10. Whatever \<open>parseInstruction\<close> returns, every cell of the store it was given
  is as it was: the accounts array and each account object in it keep their contents (id,
  balance and currency), and the list of accounts read from the array is the same. The
  account list of a response and the objects in it are cells that did not exist before.
\<close>

theorem input_store_unchanged:
  assumes "parseInstruction env h accountsRef instructionStr = Some (h', outcome)"
  shows "take (length h) h' = h
         \<and> (\<forall>a<length h. lookup h' a = lookup h a)
         \<and> readAccounts h' accountsRef = readAccounts h accountsRef
         \<and> (\<forall>r. outcome = Inr r \<longrightarrow>
               length h \<le> accounts r
               \<and> (\<forall>x\<in>set (array_elems h' (accounts r)).
                     length h \<le> x \<and> projected_at h' x \<noteq> None))"
proof -
  from parseInstruction_SomeD [OF assms] consider
    (failed) e where "h' = h" "outcome = Inl e"
  | (succeeded) accountObjs p out where "readAccounts h accountsRef = Some accountObjs"
      "processAccounts h accountsRef p (shouldExecuteNow env (execute_by p)) = (h', out)"
      "outcome = Inr (response_of env p out)"
    by blast
  then show ?thesis
  proof cases
    case failed
    then show ?thesis by simp
  next
    case succeeded
    from processAccounts_result [OF succeeded(1), of p "shouldExecuteNow env (execute_by p)"]
      succeeded(2)
    have res: "out = length h" "take (length h) h' = h"
        "\<forall>x\<in>set (array_elems h' (length h)). length h < x \<and> projected_at h' x \<noteq> None"
      by auto
    have "\<forall>a<length h. lookup h' a = lookup h a"
      using lookup_prefix [OF res(2)] by simp
    moreover have "readAccounts h' accountsRef = readAccounts h accountsRef"
      using readAccounts_prefix [OF res(2) succeeded(1)] succeeded(1) by simp
    moreover have "\<forall>x\<in>set (array_elems h' out). length h \<le> x \<and> projected_at h' x \<noteq> None"
      using res(1,3) by (simp add: less_imp_le)
    ultimately show ?thesis
      using res(1,2) succeeded(3) by (simp add: response_of_def)
  qed
qed

theorem input_store_unchanged_witness:
  "take (length example_store) example_store_after = example_store
   \<and> readAccounts example_store_after 0 = Some example_accounts
   \<and> length example_store \<le> accounts example_response"
  using input_store_unchanged [OF example_run] example_readAccounts by simp

end
